theory Spec2Isabelle
  imports Complex_Main
begin

section \<open>The HTTP client of the Airbyte CDK: data model\<close>

text \<open>
  The development follows \<^verbatim>\<open>airbyte_cdk/sources/streams/http/http_client.py\<close>.
  Python integers are \<open>int\<close>; delays and clock readings, floats in the source, are
  exact rationals; a dictionary is a map, or an association list where the code iterates
  over it; an exception is a value of the datatype \<open>exn\<close> and a function that may
  raise returns \<open>exn + 'a\<close>.
\<close>

subsection \<open>Responses, transport errors and resolutions\<close>

text \<open>
  \<^verbatim>\<open>requests.Response\<close>: the fields the client reads. Its truth value, used by
  \<^verbatim>\<open>if response:\<close>, is the library's \<^verbatim>\<open>Response.__bool__\<close>, which returns
  \<^verbatim>\<open>self.ok\<close>: false exactly when \<^verbatim>\<open>raise_for_status()\<close> raises, that is for a
  status code from 400 to 599.
\<close>

record response =
  status_code :: int
  body_text :: string

definition raises_for_status :: "response \<Rightarrow> bool" where
  "raises_for_status r = (400 \<le> status_code r \<and> status_code r < 600)"

definition response_truthy :: "response option \<Rightarrow> bool" where
  "response_truthy ro = (case ro of None \<Rightarrow> False | Some r \<Rightarrow> \<not> raises_for_status r)"

text \<open>
  What one transport call yields: a response, or a \<^verbatim>\<open>requests.RequestException\<close>
  with its text. This is the value \<^verbatim>\<open>response if response is not None else exc\<close>.
\<close>

datatype outcome = Response response | RequestException string

datatype ResponseAction = SUCCESS | RETRY | FAIL | IGNORE

datatype FailureType = system_error | config_error | transient_error

record ErrorResolution =
  response_action :: ResponseAction
  failure_type :: "FailureType option"
  error_message :: "string option"

subsection \<open>Collaborators\<close>

text \<open>
  A backoff strategy: \<^verbatim>\<open>backoff_time(response_or_exception, attempt_count)\<close> and the
  optional attributes probed with \<^verbatim>\<open>hasattr(..) and .. is not None\<close>; \<open>None\<close> stands
  for an attribute that is missing or is \<^verbatim>\<open>None\<close>.
\<close>

record BackoffStrategy =
  backoff_time :: "outcome \<Rightarrow> int \<Rightarrow> rat option"
  max_retries :: "int option"
  max_time :: "int option"
  factor :: "rat option"

record ErrorHandler =
  interpret_response :: "outcome \<Rightarrow> ErrorResolution"
  eh_max_retries :: "int option"
  eh_max_time :: "int option"

subsection \<open>Limit resolution in \<^verbatim>\<open>_send_with_retry\<close>\<close>

definition DEFAULT_MAX_RETRY :: int where
  "DEFAULT_MAX_RETRY = 5"

definition DEFAULT_RETRY_FACTOR :: rat where
  "DEFAULT_RETRY_FACTOR = 5"

definition DEFAULT_MAX_TIME :: int where
  "DEFAULT_MAX_TIME = 60 * 10"

text \<open>
  The three \<^verbatim>\<open>for backoff_strategy in self._backoff_strategies: .. break\<close> loops:
  the variable keeps its earlier value unless a strategy has the attribute.
\<close>

fun strategies_max_retries :: "BackoffStrategy list \<Rightarrow> int \<Rightarrow> int" where
  "strategies_max_retries [] acc = acc"
| "strategies_max_retries (b # bs) acc =
     (case max_retries b of Some m \<Rightarrow> m | None \<Rightarrow> strategies_max_retries bs acc)"

fun strategies_max_time :: "BackoffStrategy list \<Rightarrow> int \<Rightarrow> int" where
  "strategies_max_time [] acc = acc"
| "strategies_max_time (b # bs) acc =
     (case max_time b of Some m \<Rightarrow> m | None \<Rightarrow> strategies_max_time bs acc)"

fun strategies_factor :: "BackoffStrategy list \<Rightarrow> rat \<Rightarrow> rat" where
  "strategies_factor [] acc = acc"
| "strategies_factor (b # bs) acc =
     (case factor b of Some f \<Rightarrow> f | None \<Rightarrow> strategies_factor bs acc)"

definition resolve_max_retries :: "ErrorHandler \<Rightarrow> BackoffStrategy list \<Rightarrow> int" where
  "resolve_max_retries eh bs =
     (case eh_max_retries eh of
        Some m \<Rightarrow> m
      | None \<Rightarrow> strategies_max_retries bs DEFAULT_MAX_RETRY)"

definition resolve_max_tries :: "ErrorHandler \<Rightarrow> BackoffStrategy list \<Rightarrow> int" where
  "resolve_max_tries eh bs = max 0 (resolve_max_retries eh bs) + 1"

definition resolve_max_time :: "ErrorHandler \<Rightarrow> BackoffStrategy list \<Rightarrow> int" where
  "resolve_max_time eh bs =
     (case eh_max_time eh of
        Some m \<Rightarrow> m
      | None \<Rightarrow> strategies_max_time bs DEFAULT_MAX_TIME)"

definition resolve_factor :: "BackoffStrategy list \<Rightarrow> rat" where
  "resolve_factor bs = strategies_factor bs DEFAULT_RETRY_FACTOR"

text \<open>
  The precedence as the specification words it: the first value in declared order that
  is present, else the default.
\<close>

definition first_present :: "'a option list \<Rightarrow> 'a \<Rightarrow> 'a" where
  "first_present xs d = (case List.map_filter id xs of [] \<Rightarrow> d | x # _ \<Rightarrow> x)"

section \<open>Request construction\<close>

subsection \<open>Python values and their text\<close>

datatype exn =
    RequestBodyException string
  | AirbyteTracedException string string "FailureType option"
  | UserDefinedBackoffException rat nat outcome string
  | DefaultBackoffException nat outcome string
  | HTTPError response

text \<open>
  \<^verbatim>\<open>AirbyteTracedException internal_message message failure_type\<close>,
  \<^verbatim>\<open>UserDefinedBackoffException backoff request response error_message\<close> and
  \<^verbatim>\<open>DefaultBackoffException request response error_message\<close>, a request being named by
  its identity.
\<close>

text \<open>\<^verbatim>\<open>str(..)\<close> of an optional string: \<^verbatim>\<open>str(None)\<close> is \<^verbatim>\<open>'None'\<close>.\<close>

definition str_opt :: "string option \<Rightarrow> string" where
  "str_opt v = (case v of None \<Rightarrow> ''None'' | Some s \<Rightarrow> s)"

definition digit_char :: "nat \<Rightarrow> char" where
  "digit_char d = ''0123456789'' ! d"

fun str_nat :: "nat \<Rightarrow> string" where
  "str_nat n = (if n < 10 then [digit_char n] else str_nat (n div 10) @ [digit_char (n mod 10)])"

definition str_int :: "int \<Rightarrow> string" where
  "str_int i = (if i < 0 then CHR ''-'' # str_nat (nat (- i)) else str_nat (nat i))"

text \<open>
  \<^verbatim>\<open>str.upper()\<close> on the ASCII letters; the method names the client compares with are
  ASCII, and other characters are left as they are.
\<close>

definition upper_char :: "char \<Rightarrow> char" where
  "upper_char c =
     (case map_of (zip ''abcdefghijklmnopqrstuvwxyz'' ''ABCDEFGHIJKLMNOPQRSTUVWXYZ'') c of
        None \<Rightarrow> c
      | Some C \<Rightarrow> C)"

definition upper :: "string \<Rightarrow> string" where
  "upper s = map upper_char s"

text \<open>Truth values of the optional bodies: \<^verbatim>\<open>None\<close>, \<^verbatim>\<open>{}\<close> and \<^verbatim>\<open>''\<close> are false.\<close>

datatype body_data = DataStr string | DataMap "(string \<times> string) list"

definition json_truthy :: "(string \<times> string) list option \<Rightarrow> bool" where
  "json_truthy j = (case j of None \<Rightarrow> False | Some m \<Rightarrow> m \<noteq> [])"

definition data_truthy :: "body_data option \<Rightarrow> bool" where
  "data_truthy d =
     (case d of None \<Rightarrow> False | Some (DataStr s) \<Rightarrow> s \<noteq> [] | Some (DataMap m) \<Rightarrow> m \<noteq> [])"

subsection \<open>\<^verbatim>\<open>_dedupe_query_params\<close>\<close>

text \<open>
  The standard library's \<^verbatim>\<open>urllib.parse.parse_qs(urllib.parse.urlparse(url).query).items()\<close>
  is a parameter \<open>query_items\<close> of the model: the keys of the URL's query string in
  order, each key once. \<^verbatim>\<open>parse_qs\<close> gives every key a non-empty list of values,
  here the first value and the list of the others, so that \<^verbatim>\<open>v[0]\<close> is the first
  component.
\<close>

type_synonym query_items = "string \<Rightarrow> (string \<times> string \<times> string list) list"

definition query_dict_of :: "(string \<times> string \<times> string list) list \<Rightarrow> (string \<times> string) list" where
  "query_dict_of items = map (\<lambda>(k, v0, vs). (k, v0)) items"

definition duplicate_keys_with_same_value ::
  "(string \<times> string) list \<Rightarrow> (string \<times> string) list \<Rightarrow> string list" where
  "duplicate_keys_with_same_value query_dict params =
     filter (\<lambda>k. str_opt (map_of params k) = str_opt (map_of query_dict k)) (map fst query_dict)"

definition dedupe_query_params ::
  "query_items \<Rightarrow> string \<Rightarrow> (string \<times> string) list option \<Rightarrow> (string \<times> string) list" where
  "dedupe_query_params query_items url params =
     (let params = (case params of None \<Rightarrow> [] | Some p \<Rightarrow> p);
          query_dict = query_dict_of (query_items url)
      in filter (\<lambda>(k, v). k \<notin> set (duplicate_keys_with_same_value query_dict params)) params)"

subsection \<open>\<^verbatim>\<open>_create_prepared_request\<close>\<close>

definition BODY_REQUEST_METHODS :: "string list" where
  "BODY_REQUEST_METHODS = [''GET'', ''POST'', ''PUT'', ''PATCH'']"

definition both_bodies_message :: string where
  "both_bodies_message =
     ''At the same time only one of the 'request_body_data' and 'request_body_json' functions can return data''"

text \<open>
  A prepared request: the arguments given to \<^verbatim>\<open>requests.Request\<close>, and the identity of
  the object. \<^verbatim>\<open>PreparedRequest\<close> defines neither \<^verbatim>\<open>__eq__\<close> nor \<^verbatim>\<open>__hash__\<close>, so
  as a dictionary key a request is its identity. The record keeps the arguments as they
  are given; how the library normalises the method and encodes the parameters into the URL
  is not part of the model.
\<close>

record PreparedRequest =
  ident :: nat
  http_method :: string
  url :: string
  headers :: "(string \<times> string) list option"
  params :: "(string \<times> string) list"
  json_body :: "(string \<times> string) list option"
  data_body :: "body_data option"

definition create_prepared_request ::
  "query_items \<Rightarrow> nat \<Rightarrow> string \<Rightarrow> string \<Rightarrow> bool
     \<Rightarrow> (string \<times> string) list option \<Rightarrow> (string \<times> string) list option
     \<Rightarrow> (string \<times> string) list option \<Rightarrow> body_data option \<Rightarrow> exn + PreparedRequest" where
  "create_prepared_request query_items rid meth u dedupe hdrs ps json data =
     (let query_params = (if dedupe then dedupe_query_params query_items u ps
                          else (case ps of None \<Rightarrow> [] | Some p \<Rightarrow> p));
          args = \<lparr>ident = rid, http_method = meth, url = u, headers = hdrs,
                   params = query_params, json_body = None, data_body = None\<rparr>
      in
      if upper meth \<in> set BODY_REQUEST_METHODS then
        if json_truthy json \<and> data_truthy data then Inl (RequestBodyException both_bodies_message)
        else if json_truthy json then Inr (args\<lparr>json_body := json\<rparr>)
        else if data_truthy data then Inr (args\<lparr>data_body := data\<rparr>)
        else Inr args
      else Inr args)"

section \<open>Sending\<close>

subsection \<open>The client and its state\<close>

text \<open>
  The client's configuration: its collaborators, the transport
  (\<^verbatim>\<open>self._session.send\<close>, scripted: the duration and the outcome of the \<open>k\<close>-th
  transport call), the standard library's query parser, and whether the logger is
  enabled for \<^verbatim>\<open>DEBUG\<close>.
\<close>

record HttpClient =
  error_handler :: ErrorHandler
  backoff_strategies :: "BackoffStrategy list"
  error_message_parser :: "response \<Rightarrow> string option"
  session_send :: "nat \<Rightarrow> PreparedRequest \<Rightarrow> rat \<times> outcome"
  query_items :: query_items
  debug_enabled :: bool

datatype log_level = DEBUG | INFO | ERROR

text \<open>
  What a call changes: the instance attribute \<^verbatim>\<open>self._request_attempt_count\<close> (a
  dictionary keyed by the request object), the records the logger emitted, the number of
  transport calls made, the clock, the sleeps made so far, and the next unused object
  identity.
\<close>

record client_state =
  request_attempt_count :: "nat \<rightharpoonup> int"
  logged :: "(log_level \<times> string) list"
  calls :: nat
  clock :: rat
  slept :: "rat list"
  next_ident :: nat

definition sleep :: "rat \<Rightarrow> client_state \<Rightarrow> client_state" where
  "sleep d s = s\<lparr>clock := clock s + d, slept := slept s @ [d]\<rparr>"

definition log_record :: "log_level \<Rightarrow> string \<Rightarrow> client_state \<Rightarrow> client_state" where
  "log_record lvl msg s = s\<lparr>logged := logged s @ [(lvl, msg)]\<rparr>"

subsection \<open>Message texts\<close>

definition quoted :: "string \<Rightarrow> string" where
  "quoted t = CHR 0x27 # t @ [CHR 0x27]"

text \<open>\<^verbatim>\<open>a or b\<close> for an optional string \<open>a\<close>: \<^verbatim>\<open>None\<close> and \<^verbatim>\<open>''\<close> are false.\<close>

definition or_else :: "string option \<Rightarrow> string \<Rightarrow> string" where
  "or_else a b = (case a of None \<Rightarrow> b | Some t \<Rightarrow> if t = [] then b else t)"

fun str_FailureType :: "FailureType option \<Rightarrow> string" where
  "str_FailureType None = ''None''"
| "str_FailureType (Some system_error) = ''FailureType.system_error''"
| "str_FailureType (Some config_error) = ''FailureType.config_error''"
| "str_FailureType (Some transient_error) = ''FailureType.transient_error''"

fun str_ResponseAction :: "ResponseAction \<Rightarrow> string" where
  "str_ResponseAction SUCCESS = ''ResponseAction.SUCCESS''"
| "str_ResponseAction RETRY = ''ResponseAction.RETRY''"
| "str_ResponseAction FAIL = ''ResponseAction.FAIL''"
| "str_ResponseAction IGNORE = ''ResponseAction.IGNORE''"

text \<open>
  The branch \<^verbatim>\<open>if response:\<close> takes a response whose truth value is true; every
  other response, and \<^verbatim>\<open>None\<close>, takes the \<^verbatim>\<open>else\<close>.
\<close>

definition if_response :: "response option \<Rightarrow> response option" where
  "if_response ro = (if response_truthy ro then ro else None)"

definition fail_error_message ::
  "HttpClient \<Rightarrow> PreparedRequest \<Rightarrow> response option \<Rightarrow> string option \<Rightarrow> string" where
  "fail_error_message c request response exc =
     (case if_response response of
        Some r \<Rightarrow>
          quoted (http_method request) @ '' request to '' @ quoted (url request)
            @ '' failed with status code '' @ quoted (str_int (status_code r))
            @ '' and error message '' @ quoted (str_opt (error_message_parser c r))
      | None \<Rightarrow>
          quoted (http_method request) @ '' request to '' @ quoted (url request)
            @ '' failed with exception: '' @ quoted (str_opt exc))"

definition ignore_log_message ::
  "PreparedRequest \<Rightarrow> response option \<Rightarrow> string option \<Rightarrow> string" where
  "ignore_log_message request response exc =
     (case if_response response of
        Some r \<Rightarrow>
          ''Ignoring response for '' @ quoted (http_method request) @ '' request to ''
            @ quoted (url request) @ '' with response code '' @ quoted (str_int (status_code r))
      | None \<Rightarrow>
          ''Ignoring response for '' @ quoted (http_method request) @ '' request to ''
            @ quoted (url request) @ '' with error '' @ quoted (str_opt exc))"

definition retry_error_message :: "PreparedRequest \<Rightarrow> ErrorResolution \<Rightarrow> string" where
  "retry_error_message request res =
     or_else (error_message res)
       (''Request to '' @ url request @ '' failed with failure type ''
          @ str_FailureType (failure_type res) @ '', response action ''
          @ str_ResponseAction (response_action res) @ ''.'')"

subsection \<open>\<^verbatim>\<open>_send\<close>: one attempt\<close>

text \<open>
  The loop over the backoff strategies in the \<^verbatim>\<open>RETRY\<close> branch: \<^verbatim>\<open>if backoff_time:\<close>
  is false for \<^verbatim>\<open>None\<close> and for \<^verbatim>\<open>0\<close>, and the loop breaks at the first true value.
\<close>

fun custom_backoff_time :: "BackoffStrategy list \<Rightarrow> outcome \<Rightarrow> int \<Rightarrow> rat option" where
  "custom_backoff_time [] out n = None"
| "custom_backoff_time (b # bs) out n =
     (case backoff_time b out n of
        None \<Rightarrow> custom_backoff_time bs out n
      | Some d \<Rightarrow> if d \<noteq> 0 then Some d else custom_backoff_time bs out n)"

definition send ::
  "HttpClient \<Rightarrow> PreparedRequest \<Rightarrow> client_state \<Rightarrow> (exn + response option) \<times> client_state"
  where
  "send c request s =
     (let attempt_count =
            (case request_attempt_count s (ident request) of None \<Rightarrow> 1 | Some k \<Rightarrow> k + 1);
          s1 = s\<lparr>request_attempt_count :=
                   (request_attempt_count s)(ident request \<mapsto> attempt_count)\<rparr>;
          s2 = (if debug_enabled c then log_record DEBUG ''Making outbound API request'' s1
                else s1);
          (duration, out) = session_send c (calls s2) request;
          s3 = s2\<lparr>calls := calls s2 + 1, clock := clock s2 + duration\<rparr>;
          response = (case out of Response r \<Rightarrow> Some r | RequestException t \<Rightarrow> None);
          exc = (case out of Response r \<Rightarrow> None | RequestException t \<Rightarrow> Some t);
          error_resolution = interpret_response (error_handler c) out;
          s4 = (if debug_enabled c \<and> response \<noteq> None
                then log_record DEBUG ''Receiving response'' s3 else s3)
      in
      if response_action error_resolution = FAIL then
        (let msg = fail_error_message c request response exc in
         (Inl (AirbyteTracedException msg (or_else (error_message error_resolution) msg)
                 (failure_type error_resolution)), s4))
      else if response_action error_resolution = IGNORE then
        (Inr response,
         log_record INFO
           (or_else (error_message error_resolution) (ignore_log_message request response exc))
           s4)
      else if response_action error_resolution = RETRY then
        (case custom_backoff_time (backoff_strategies c) out attempt_count of
           Some d \<Rightarrow>
             (Inl (UserDefinedBackoffException d (ident request) out
                     (retry_error_message request error_resolution)), s4)
         | None \<Rightarrow>
             (Inl (DefaultBackoffException (ident request) out
                     (retry_error_message request error_resolution)), s4))
      else
        (case if_response response of
           Some r \<Rightarrow>
             if raises_for_status r
             then (Inl (HTTPError r), log_record ERROR (body_text r) s4)
             else (Inr response, s4)
         | None \<Rightarrow> (Inr response, s4)))"

subsection \<open>The retry handlers\<close>

text \<open>
  The attempt count of a request: its entry in \<^verbatim>\<open>_request_attempt_count\<close>, 0 before
  the first attempt.
\<close>

definition attempt_count_of :: "client_state \<Rightarrow> nat \<Rightarrow> int" where
  "attempt_count_of s i = (case request_attempt_count s i of None \<Rightarrow> 0 | Some k \<Rightarrow> k)"

fun is_user_defined_backoff :: "exn \<Rightarrow> bool" where
  "is_user_defined_backoff (UserDefinedBackoffException d rq out m) = True"
| "is_user_defined_backoff e = False"

fun is_default_backoff :: "exn \<Rightarrow> bool" where
  "is_default_backoff (DefaultBackoffException rq out m) = True"
| "is_default_backoff e = False"

fun backoff_of :: "exn \<Rightarrow> rat" where
  "backoff_of (UserDefinedBackoffException d rq out m) = d"
| "backoff_of e = 0"

text \<open>
  Modelled from the spec: the two retry decorators that \<^verbatim>\<open>_send_with_retry\<close> imports
  from \<^verbatim>\<open>rate_limiting.py\<close>, \<^verbatim>\<open>user_defined_backoff_handler\<close> and
  \<^verbatim>\<open>http_client_default_backoff_handler\<close>, are not among the sources. They follow
  the retry loop of section 4.1 of the specification, on the retry state of section 3: the
  attempt count of the request, which starts at 1, and the time elapsed since its first
  attempt. On a \<open>RETRY\<close> outcome, if \<open>attempt = max_tries\<close> or the projected sleep would
  exceed what remains of \<open>max_time\<close>, the loop stops and the error of that attempt,
  which carries the message of the retry action, is raised; otherwise it sleeps for the
  delay and makes the next attempt. The delay is the one a strategy gave,
  and \<open>factor \<times> 2^(attempt - 1)\<close> when none gave one. A response, and any other
  error, passes through.

  The user-defined handler, applied to \<^verbatim>\<open>_send\<close>, takes the signal that carries a
  strategy's delay; the default handler, applied to the user-defined one, takes the
  signal without a delay. For the attempts of one call \<open>attempt \<le> max_tries\<close>, where the
  test \<open>max_tries \<le> attempt\<close> is the test \<open>attempt = max_tries\<close>.
\<close>

function user_defined_backoff_handler ::
  "int \<Rightarrow> int \<Rightarrow> rat \<Rightarrow> HttpClient \<Rightarrow> PreparedRequest \<Rightarrow> client_state
     \<Rightarrow> (exn + response option) \<times> client_state" where
  "user_defined_backoff_handler max_tries max_time_s start c request s =
     (case send c request s of
        (Inr r, s') \<Rightarrow> (Inr r, s')
      | (Inl e, s') \<Rightarrow>
          if \<not> is_user_defined_backoff e then (Inl e, s')
          else if max_tries \<le> attempt_count_of s' (ident request)
                  \<or> of_int max_time_s < (clock s' - start) + backoff_of e
          then (Inl e, s')
          else user_defined_backoff_handler max_tries max_time_s start c request
                 (sleep (backoff_of e) s'))"
  by pat_completeness auto
termination
proof (relation "measure (\<lambda>(mt, mx, st, c, request, s). nat (mt - attempt_count_of s (ident request)))")
  show "wf (measure (\<lambda>(mt, mx, st, c, request, s). nat (mt - attempt_count_of s (ident request))))"
    by simp
next
  fix max_tries max_time_s :: int and start :: rat and c :: HttpClient
    and request :: PreparedRequest and s s' :: client_state and x :: "exn + response option"
    and e :: exn
  assume sent: "(x, s') = send c request s"
    and "\<not> (max_tries \<le> attempt_count_of s' (ident request)
            \<or> of_int max_time_s < (clock s' - start) + backoff_of e)"
  then have below: "attempt_count_of s' (ident request) < max_tries"
    by simp
  have "attempt_count_of s' (ident request) = attempt_count_of s (ident request) + 1"
    using sent [symmetric]
    by (auto simp: send_def Let_def log_record_def attempt_count_of_def
        split: prod.splits if_splits option.splits)
  with below show "((max_tries, max_time_s, start, c, request, sleep (backoff_of e) s'),
            (max_tries, max_time_s, start, c, request, s))
          \<in> measure (\<lambda>(mt, mx, st, c, request, s). nat (mt - attempt_count_of s (ident request)))"
    by (simp add: sleep_def attempt_count_of_def)
qed

declare user_defined_backoff_handler.simps [simp del]

function http_client_default_backoff_handler ::
  "int \<Rightarrow> int \<Rightarrow> rat \<Rightarrow> rat \<Rightarrow> HttpClient \<Rightarrow> PreparedRequest \<Rightarrow> client_state
     \<Rightarrow> (exn + response option) \<times> client_state" where
  "http_client_default_backoff_handler max_tries max_time_s fac start c request s =
     (case user_defined_backoff_handler max_tries max_time_s start c request s of
        (Inr r, s') \<Rightarrow> (Inr r, s')
      | (Inl e, s') \<Rightarrow>
          if \<not> is_default_backoff e then (Inl e, s')
          else if max_tries \<le> attempt_count_of s' (ident request)
                  \<or> of_int max_time_s
                       < (clock s' - start) + fac * 2 ^ nat (attempt_count_of s' (ident request) - 1)
          then (Inl e, s')
          else http_client_default_backoff_handler max_tries max_time_s fac start c request
                 (sleep (fac * 2 ^ nat (attempt_count_of s' (ident request) - 1)) s'))"
  by pat_completeness auto
termination
proof (relation "measure (\<lambda>(mt, mx, f, st, c, request, s). nat (mt - attempt_count_of s (ident request)))")
  show "wf (measure (\<lambda>(mt, mx, f, st, c, request, s). nat (mt - attempt_count_of s (ident request))))"
    by simp
next
  fix max_tries max_time_s :: int and fac start :: rat and c :: HttpClient
    and request :: PreparedRequest and s s' :: client_state and x :: "exn + response option"
    and e :: exn
  assume run: "(x, s') = user_defined_backoff_handler max_tries max_time_s start c request s"
    and "\<not> (max_tries \<le> attempt_count_of s' (ident request)
            \<or> of_int max_time_s
                 < (clock s' - start) + fac * 2 ^ nat (attempt_count_of s' (ident request) - 1))"
  then have below: "attempt_count_of s' (ident request) < max_tries"
    by simp
  have step: "attempt_count_of s1 (ident rq) = attempt_count_of s0 (ident rq) + 1"
    if "send cl rq s0 = (r, s1)" for cl rq s0 r s1
    using that
    by (auto simp: send_def Let_def log_record_def attempt_count_of_def
        split: prod.splits if_splits option.splits)
  have "user_defined_backoff_handler mt mx st c request s0 = (r, s1) \<Longrightarrow>
          attempt_count_of s0 (ident request) < attempt_count_of s1 (ident request)"
    for mt mx st s0 r s1
  proof (induction mt mx st c request s0 rule: user_defined_backoff_handler.induct)
    case (1 mt mx st c request s0)
    obtain r2 s2 where sent: "send c request s0 = (r2, s2)" by (cases "send c request s0")
    have up: "attempt_count_of s2 (ident request) = attempt_count_of s0 (ident request) + 1"
      using sent by (rule step)
    show ?case
    proof (cases "s1 = s2")
      case True
      with up show ?thesis by simp
    next
      case False
      with "1.prems" sent obtain e2 where r2: "r2 = Inl e2"
        and cond: "\<not> \<not> is_user_defined_backoff e2"
          "\<not> (mt \<le> attempt_count_of s2 (ident request)
              \<or> of_int mx < (clock s2 - st) + backoff_of e2)"
        and next_run: "user_defined_backoff_handler mt mx st c request (sleep (backoff_of e2) s2)
              = (r, s1)"
        by (subst (asm) user_defined_backoff_handler.simps) (auto split: sum.splits if_splits)
      from "1.IH" [OF sent [symmetric] r2 cond next_run]
      have "attempt_count_of s2 (ident request) < attempt_count_of s1 (ident request)"
        by (simp add: sleep_def attempt_count_of_def)
      with up show ?thesis by simp
    qed
  qed
  from this [OF run [symmetric]] below
  show "((max_tries, max_time_s, fac, start, c, request,
            sleep (fac * 2 ^ nat (attempt_count_of s' (ident request) - 1)) s'),
           (max_tries, max_time_s, fac, start, c, request, s))
          \<in> measure (\<lambda>(mt, mx, f, st, c, request, s). nat (mt - attempt_count_of s (ident request)))"
    by (simp add: sleep_def attempt_count_of_def)
qed

declare http_client_default_backoff_handler.simps [simp del]

subsection \<open>\<^verbatim>\<open>_send_with_retry\<close> and \<^verbatim>\<open>send_request\<close>\<close>

text \<open>
  \<^verbatim>\<open>backoff_handler(user_backoff_handler)(request, request_kwargs)\<close>: the default handler
  around the user-defined handler around \<^verbatim>\<open>_send\<close>, with the limits resolved once and
  the retry state of this call, whose time runs from now.
\<close>

definition send_with_retry ::
  "HttpClient \<Rightarrow> PreparedRequest \<Rightarrow> client_state \<Rightarrow> (exn + response option) \<times> client_state"
  where
  "send_with_retry c request s =
     (let max_tries = resolve_max_tries (error_handler c) (backoff_strategies c);
          max_time_s = resolve_max_time (error_handler c) (backoff_strategies c);
          fac = resolve_factor (backoff_strategies c)
      in http_client_default_backoff_handler max_tries max_time_s fac (clock s) c request s)"

text \<open>
  \<^verbatim>\<open>send_request\<close>: the prepared request is a new object, so it gets the next unused
  identity.
\<close>

definition send_request ::
  "HttpClient \<Rightarrow> string \<Rightarrow> string \<Rightarrow> (string \<times> string) list option
     \<Rightarrow> (string \<times> string) list option \<Rightarrow> (string \<times> string) list option \<Rightarrow> body_data option
     \<Rightarrow> bool \<Rightarrow> client_state
     \<Rightarrow> (exn + PreparedRequest \<times> response option) \<times> client_state" where
  "send_request c meth u hdrs ps json data dedupe s =
     (case create_prepared_request (query_items c) (next_ident s) meth u dedupe hdrs ps json data of
        Inl e \<Rightarrow> (Inl e, s)
      | Inr request \<Rightarrow>
          (case send_with_retry c request (s\<lparr>next_ident := next_ident s + 1\<rparr>) of
             (Inl e, s') \<Rightarrow> (Inl e, s')
           | (Inr response, s') \<Rightarrow> (Inr (request, response), s')))"

subsection \<open>The selection of a delay, as the specification words it\<close>

text \<open>
  The first delay in declared order that is not empty, a delay being empty when it is
  \<^verbatim>\<open>None\<close> or zero.
\<close>

definition first_delay :: "rat option list \<Rightarrow> rat option" where
  "first_delay ds = (case filter (\<lambda>d. d \<noteq> None \<and> d \<noteq> Some 0) ds of [] \<Rightarrow> None | d # _ \<Rightarrow> d)"

text \<open>
  The sleep after an attempt with a \<open>RETRY\<close> outcome: that delay, and when there is
  none the exponential backoff \<open>factor \<times> 2^(attempt - 1)\<close>.
\<close>

definition retry_delay :: "HttpClient \<Rightarrow> outcome \<Rightarrow> int \<Rightarrow> rat" where
  "retry_delay c out attempt =
     (case first_delay (map (\<lambda>b. backoff_time b out attempt) (backoff_strategies c)) of
        Some d \<Rightarrow> d
      | None \<Rightarrow> resolve_factor (backoff_strategies c) * 2 ^ nat (attempt - 1))"

text \<open>A strategy changed to return no delay wherever it returns zero.\<close>

definition zero_as_none :: "BackoffStrategy \<Rightarrow> BackoffStrategy" where
  "zero_as_none b =
     b\<lparr>backoff_time :=
         (\<lambda>out n. case backoff_time b out n of
                     None \<Rightarrow> None
                   | Some d \<Rightarrow> if d = 0 then None else Some d)\<rparr>"

subsection \<open>Sleeps of a run\<close>

text \<open>The sleeps made up to the second state begin with those made up to the first.\<close>

definition slept_extends :: "client_state \<Rightarrow> client_state \<Rightarrow> bool" where
  "slept_extends s s' = (\<exists>xs. slept s' = slept s @ xs)"

text \<open>
  A run of retries for a request from the first state to the second, with \<open>m\<close> retries:
  \<open>m + 1\<close> attempts are made and counted; each of the first \<open>m\<close> outcomes is classified
  \<open>RETRY\<close>, and after each of them there is one sleep, of the delay selected for this
  outcome and the attempt count at that attempt.
\<close>

definition retried_run ::
  "HttpClient \<Rightarrow> PreparedRequest \<Rightarrow> client_state \<Rightarrow> client_state \<Rightarrow> nat \<Rightarrow> bool" where
  "retried_run c request s s' m =
     (calls s' = calls s + Suc m
      \<and> attempt_count_of s' (ident request) = attempt_count_of s (ident request) + 1 + int m
      \<and> slept s' = slept s @
           map (\<lambda>j. retry_delay c (snd (session_send c (calls s + j) request))
                       (attempt_count_of s (ident request) + int j + 1)) [0..<m]
      \<and> list_all (\<lambda>j. response_action (interpret_response (error_handler c)
                          (snd (session_send c (calls s + j) request))) = RETRY) [0..<m])"

subsection \<open>The attempt counts of a run\<close>

text \<open>
  Between two states of a run for the request with identity \<open>i\<close>: the dictionary has
  changed at \<open>i\<close> only, by the number of transport calls made. And the invariant of the
  allocation of identities: no identity from the next unused one on is a key.
\<close>

definition attempts_tracked :: "nat \<Rightarrow> client_state \<Rightarrow> client_state \<Rightarrow> bool" where
  "attempts_tracked i s s' =
     (calls s \<le> calls s' \<and> next_ident s' = next_ident s \<and>
      request_attempt_count s' =
        (if calls s' = calls s then request_attempt_count s
         else (request_attempt_count s)
                (i \<mapsto> (case request_attempt_count s i of None \<Rightarrow> 0 | Some k \<Rightarrow> k)
                        + int (calls s' - calls s))))"

definition idents_allocated :: "client_state \<Rightarrow> bool" where
  "idents_allocated s = (\<forall>k. next_ident s \<le> k \<longrightarrow> request_attempt_count s k = None)"

section \<open>Example configurations\<close>

subsection \<open>A query parser for plain URLs\<close>

text \<open>
  An instance of \<open>query_items\<close> for URLs whose query string needs no decoding: the
  query is the text between the first \<^verbatim>\<open>?\<close> and a \<^verbatim>\<open>#\<close>, split at \<^verbatim>\<open>&\<close> and at
  the first \<^verbatim>\<open>=\<close> of each part; parts with a blank value are dropped, as \<^verbatim>\<open>parse_qs\<close>
  does by default, and the values of a repeated key are collected in order.
\<close>

definition url_query :: "string \<Rightarrow> string" where
  "url_query u =
     takeWhile (\<lambda>c. c \<noteq> CHR ''#'') (drop 1 (dropWhile (\<lambda>c. c \<noteq> CHR ''?'') u))"

fun split_on :: "char \<Rightarrow> string \<Rightarrow> string list" where
  "split_on c [] = [[]]"
| "split_on c (x # xs) =
     (if x = c then [] # split_on c xs
      else (case split_on c xs of [] \<Rightarrow> [[x]] | w # ws \<Rightarrow> (x # w) # ws))"

definition name_value :: "string \<Rightarrow> string \<times> string" where
  "name_value p =
     (takeWhile (\<lambda>c. c \<noteq> CHR ''='') p, drop 1 (dropWhile (\<lambda>c. c \<noteq> CHR ''='') p))"

function group_values :: "(string \<times> string) list \<Rightarrow> (string \<times> string \<times> string list) list" where
  "group_values [] = []"
| "group_values ((k, v) # rest) =
     (k, v, map snd (filter (\<lambda>p. fst p = k) rest))
       # group_values (filter (\<lambda>p. fst p \<noteq> k) rest)"
  by pat_completeness auto
termination
  by (relation "measure length") (auto simp: less_Suc_eq_le)

definition plain_query_items :: query_items where
  "plain_query_items u =
     group_values (filter (\<lambda>p. snd p \<noteq> []) (map name_value (split_on CHR ''&'' (url_query u))))"

subsection \<open>Clients and states\<close>

definition initial_state :: client_state where
  "initial_state =
     \<lparr>request_attempt_count = Map.empty, logged = [], calls = 0, clock = 0, slept = [],
      next_ident = 0\<rparr>"

text \<open>An error handler that gives every outcome the same resolution, with no overrides.\<close>

definition constant_handler :: "ResponseAction \<Rightarrow> string option \<Rightarrow> ErrorHandler" where
  "constant_handler a msg =
     \<lparr>interpret_response =
        (\<lambda>out. \<lparr>response_action = a, failure_type = Some system_error, error_message = msg\<rparr>),
      eh_max_retries = None, eh_max_time = None\<rparr>"

text \<open>A transport that answers every call at once with the same status and body.\<close>

definition constant_transport :: "int \<Rightarrow> string \<Rightarrow> nat \<Rightarrow> PreparedRequest \<Rightarrow> rat \<times> outcome" where
  "constant_transport code body k request = (0, Response \<lparr>status_code = code, body_text = body\<rparr>)"

text \<open>
  Backoff strategies: one that never gives a delay, one that gives a delay on the first
  attempt of a request only, and one that always gives the same delay; each with an
  optional override of \<open>max_retries\<close>.
\<close>

definition silent_strategy :: "int option \<Rightarrow> BackoffStrategy" where
  "silent_strategy mr =
     \<lparr>backoff_time = (\<lambda>out n. None), max_retries = mr, max_time = None, factor = None\<rparr>"

definition first_attempt_strategy :: "rat \<Rightarrow> int option \<Rightarrow> BackoffStrategy" where
  "first_attempt_strategy d mr =
     \<lparr>backoff_time = (\<lambda>out n. if n = 1 then Some d else None), max_retries = mr,
      max_time = None, factor = None\<rparr>"

definition constant_strategy :: "rat \<Rightarrow> int option \<Rightarrow> BackoffStrategy" where
  "constant_strategy d mr =
     \<lparr>backoff_time = (\<lambda>out n. Some d), max_retries = mr, max_time = None, factor = None\<rparr>"


definition client_of ::
  "ErrorHandler \<Rightarrow> BackoffStrategy list \<Rightarrow> (nat \<Rightarrow> PreparedRequest \<Rightarrow> rat \<times> outcome) \<Rightarrow> HttpClient"
  where
  "client_of eh bs transport =
     \<lparr>error_handler = eh, backoff_strategies = bs,
      error_message_parser = (\<lambda>r. Some (body_text r)),
      session_send = transport, query_items = plain_query_items, debug_enabled = False\<rparr>"

section \<open>Limit resolution\<close>

lemma strategies_max_retries_first:
  "strategies_max_retries bs d = first_present (map max_retries bs) d"
  by (induction bs) (auto simp: first_present_def split: option.splits)

lemma strategies_max_time_first:
  "strategies_max_time bs d = first_present (map max_time bs) d"
  by (induction bs) (auto simp: first_present_def split: option.splits)

lemma strategies_factor_first:
  "strategies_factor bs d = first_present (map factor bs) d"
  by (induction bs) (auto simp: first_present_def split: option.splits)

text \<open>
  C4. The limits are resolved by fixed precedence: \<open>max_retries\<close> is the error handler's
  override if it has one, else the first override among the backoff strategies in declared
  order, else 5; \<open>max_time\<close> follows the same precedence with default 600; \<open>factor\<close> is
  the first override among the strategies, else 5; and \<open>max_tries = max(max_retries, 0) + 1\<close>.
\<close>

theorem limit_resolution_precedence:
  "resolve_max_retries eh bs = first_present (eh_max_retries eh # map max_retries bs) 5
   \<and> resolve_max_time eh bs = first_present (eh_max_time eh # map max_time bs) 600
   \<and> resolve_factor bs = first_present (map factor bs) 5
   \<and> resolve_max_tries eh bs = max (resolve_max_retries eh bs) 0 + 1"
  by (auto simp: resolve_max_retries_def resolve_max_time_def resolve_factor_def
      resolve_max_tries_def strategies_max_retries_first strategies_max_time_first
      strategies_factor_first first_present_def
      DEFAULT_MAX_RETRY_def DEFAULT_MAX_TIME_def DEFAULT_RETRY_FACTOR_def
      split: option.splits)

section \<open>Query parameter deduplication\<close>








section \<open>One attempt\<close>

lemma send_state:
  assumes "send c request s = (r, s')"
  shows "calls s' = calls s + 1"
    and "request_attempt_count s' =
           (request_attempt_count s)(ident request \<mapsto>
              (case request_attempt_count s (ident request) of None \<Rightarrow> 1 | Some k \<Rightarrow> k + 1))"
    and "slept s' = slept s"
    and "next_ident s' = next_ident s"
    and "clock s' = clock s + fst (session_send c (calls s) request)"
  using assms
  by (auto simp: send_def Let_def log_record_def split: prod.splits if_splits option.splits)


lemma send_retry:
  assumes "session_send c (calls s) request = (t, out)"
    and "response_action (interpret_response (error_handler c) out) = RETRY"
  shows "fst (send c request s) =
     (case custom_backoff_time (backoff_strategies c) out
             (case request_attempt_count s (ident request) of None \<Rightarrow> 1 | Some k \<Rightarrow> k + 1) of
        Some d \<Rightarrow> Inl (UserDefinedBackoffException d (ident request) out
                    (retry_error_message request (interpret_response (error_handler c) out)))
      | None \<Rightarrow> Inl (DefaultBackoffException (ident request) out
                    (retry_error_message request (interpret_response (error_handler c) out))))"
  using assms
  by (auto simp: send_def Let_def log_record_def split: prod.splits if_splits option.splits)

section \<open>The retry handlers\<close>

lemma send_attempt_count:
  "send c request s = (r, s') \<Longrightarrow>
     attempt_count_of s' (ident request) = attempt_count_of s (ident request) + 1"
  using send_state(2) [of c request s r s']
  by (simp add: attempt_count_of_def split: option.splits)


lemma user_handler_unhandled:
  "send c request s = (Inl e, s') \<Longrightarrow> \<not> is_user_defined_backoff e \<Longrightarrow>
     user_defined_backoff_handler mt mx st c request s = (Inl e, s')"
  by (subst user_defined_backoff_handler.simps) simp


text \<open>
  A relation between states that every attempt establishes, that is transitive and that a
  sleep keeps, holds between the first and the last state of a handler's run.
\<close>

lemma user_handler_rel:
  assumes run: "user_defined_backoff_handler mt mx st c request s = (r, s')"
    and attempt: "\<And>s r s'. send c request s = (r, s') \<Longrightarrow> R s s'"
    and trans: "\<And>a b c. R a b \<Longrightarrow> R b c \<Longrightarrow> R a c"
    and sleeps: "\<And>a b d. R a b \<Longrightarrow> R a (sleep d b)"
  shows "R s s'"
  using assms
proof (induction mt mx st c request s rule: user_defined_backoff_handler.induct)
  case (1 mt mx st c request s)
  note run = "1.prems"(1) and attempt = "1.prems"(2) and trans = "1.prems"(3)
    and sleeps = "1.prems"(4)
  obtain r1 s1 where sent: "send c request s = (r1, s1)" by (cases "send c request s")
  have R1: "R s s1" using sent by (rule attempt)
  show ?case
  proof (cases "s' = s1")
    case True
    with R1 show ?thesis by simp
  next
    case False
    with run sent obtain e where r1: "r1 = Inl e"
      and cond: "\<not> \<not> is_user_defined_backoff e"
        "\<not> (mt \<le> attempt_count_of s1 (ident request)
            \<or> of_int mx < (clock s1 - st) + backoff_of e)"
      and next_run: "user_defined_backoff_handler mt mx st c request (sleep (backoff_of e) s1)
            = (r, s')"
      by (subst (asm) user_defined_backoff_handler.simps) (auto split: sum.splits if_splits)
    have "R (sleep (backoff_of e) s1) s'"
      using "1.IH" [OF sent [symmetric] r1 cond next_run attempt trans sleeps] .
    moreover have "R s (sleep (backoff_of e) s1)" using R1 by (rule sleeps)
    ultimately show ?thesis by (rule trans [rotated])
  qed
qed

lemma default_handler_rel:
  assumes run: "http_client_default_backoff_handler mt mx fac st c request s = (r, s')"
    and attempt: "\<And>s r s'. send c request s = (r, s') \<Longrightarrow> R s s'"
    and trans: "\<And>a b c. R a b \<Longrightarrow> R b c \<Longrightarrow> R a c"
    and sleeps: "\<And>a b d. R a b \<Longrightarrow> R a (sleep d b)"
  shows "R s s'"
  using assms
proof (induction mt mx fac st c request s rule: http_client_default_backoff_handler.induct)
  case (1 mt mx fac st c request s)
  note run = "1.prems"(1) and attempt = "1.prems"(2) and trans = "1.prems"(3)
    and sleeps = "1.prems"(4)
  obtain r1 s1 where inner: "user_defined_backoff_handler mt mx st c request s = (r1, s1)"
    by (cases "user_defined_backoff_handler mt mx st c request s")
  have R1: "R s s1" using inner attempt trans sleeps by (rule user_handler_rel)
  show ?case
  proof (cases "s' = s1")
    case True
    with R1 show ?thesis by simp
  next
    case False
    define d where "d = fac * 2 ^ nat (attempt_count_of s1 (ident request) - 1)"
    from False run inner obtain e where r1: "r1 = Inl e"
      and cond: "\<not> \<not> is_default_backoff e"
        "\<not> (mt \<le> attempt_count_of s1 (ident request)
            \<or> of_int mx < (clock s1 - st)
                  + fac * 2 ^ nat (attempt_count_of s1 (ident request) - 1))"
      and next_run: "http_client_default_backoff_handler mt mx fac st c request (sleep d s1)
            = (r, s')"
      unfolding d_def
      by (subst (asm) http_client_default_backoff_handler.simps)
        (auto split: sum.splits if_splits)
    have "R (sleep d s1) s'"
      using "1.IH" [OF inner [symmetric] r1 cond next_run [unfolded d_def] attempt trans sleeps]
      by (simp add: d_def)
    moreover have "R s (sleep d s1)" using R1 by (rule sleeps)
    ultimately show ?thesis by (rule trans [rotated])
  qed
qed

lemma send_with_retry_rel:
  assumes "send_with_retry c request s = (r, s')"
    and "\<And>s r s'. send c request s = (r, s') \<Longrightarrow> R s s'"
    and "\<And>a b c. R a b \<Longrightarrow> R b c \<Longrightarrow> R a c"
    and "\<And>a b d. R a b \<Longrightarrow> R a (sleep d b)"
  shows "R s s'"
  using assms(1) [unfolded send_with_retry_def Let_def] assms(2-4)
  by (rule default_handler_rel)

section \<open>Ignored outcomes\<close>





section \<open>Evaluating the examples\<close>

lemmas example_defs =
  send_request_def create_prepared_request_def upper_def upper_char_def BODY_REQUEST_METHODS_def
  json_truthy_def data_truthy_def send_with_retry_def resolve_max_tries_def
  resolve_max_retries_def resolve_max_time_def resolve_factor_def DEFAULT_MAX_TIME_def
  DEFAULT_RETRY_FACTOR_def DEFAULT_MAX_RETRY_def user_defined_backoff_handler.simps
  http_client_default_backoff_handler.simps attempt_count_of_def send_def initial_state_def
  retry_error_message_def or_else_def Let_def client_of_def constant_handler_def
  constant_transport_def fail_error_message_def if_response_def response_truthy_def
  raises_for_status_def str_opt_def str_int_def digit_char_def quoted_def log_record_def
  sleep_def ignore_log_message_def silent_strategy_def first_attempt_strategy_def
  constant_strategy_def

section \<open>Ignored responses\<close>

text \<open>
  C8, evaluated where it fails. A response with status 404 is classified \<open>IGNORE\<close> and the
  handler gives no message. The response is returned with the request, unmodified, after
  one transport call and no sleep, and nothing is raised. The record logged at \<open>INFO\<close>
  does not tell the outcome: the test \<^verbatim>\<open>if response:\<close> is false for this response, so
  the text is the one for a transport exception, with \<^verbatim>\<open>None\<close> for the exception, and
  the status is not in it. With status 200 the same configuration logs the status.
\<close>

theorem ignored_error_response_log:
  "send_request (client_of (constant_handler IGNORE None) [] (constant_transport 404 ''gone''))
          ''GET'' ''http://x/'' None None None None False initial_state
     = (Inr (\<lparr>ident = 0, http_method = ''GET'', url = ''http://x/'', headers = None, params = [],
               json_body = None, data_body = None\<rparr>,
             Some \<lparr>status_code = 404, body_text = ''gone''\<rparr>),
        \<lparr>request_attempt_count = [0 \<mapsto> 1],
         logged = [(INFO, ''Ignoring response for '' @ quoted ''GET'' @ '' request to ''
                      @ quoted ''http://x/'' @ '' with error '' @ quoted ''None'')],
         calls = 1, clock = 0, slept = [], next_ident = 1\<rparr>)
   \<and> logged (snd (send_request
          (client_of (constant_handler IGNORE None) [] (constant_transport 200 ''gone''))
          ''GET'' ''http://x/'' None None None None False initial_state))
     = [(INFO, ''Ignoring response for '' @ quoted ''GET'' @ '' request to ''
                 @ quoted ''http://x/'' @ '' with response code '' @ quoted ''200'')]"
  by (simp add: example_defs)

section \<open>Conflicting bodies\<close>




section \<open>Terminal failures\<close>

text \<open>
  C7, evaluated where it fails. A response with status 404 is classified \<open>FAIL\<close> and the
  handler gives no message. The test \<^verbatim>\<open>if response:\<close> is false for this response, so
  the error takes the text for a transport exception, with \<^verbatim>\<open>None\<close> for the exception:
  neither the status nor the parser's message is in it. With status 200 the same
  configuration gives the text with the status and the parser's message.
\<close>

theorem fail_message_of_error_response:
  "fst (send_request (client_of (constant_handler FAIL None) [] (constant_transport 404 ''not found''))
          ''GET'' ''http://x/'' None None None None False initial_state)
     = Inl (AirbyteTracedException
         (quoted ''GET'' @ '' request to '' @ quoted ''http://x/''
            @ '' failed with exception: '' @ quoted ''None'')
         (quoted ''GET'' @ '' request to '' @ quoted ''http://x/''
            @ '' failed with exception: '' @ quoted ''None'')
         (Some system_error))
   \<and> fst (send_request (client_of (constant_handler FAIL None) [] (constant_transport 200 ''not found''))
          ''GET'' ''http://x/'' None None None None False initial_state)
     = Inl (AirbyteTracedException
         (quoted ''GET'' @ '' request to '' @ quoted ''http://x/''
            @ '' failed with status code '' @ quoted ''200''
            @ '' and error message '' @ quoted ''not found'')
         (quoted ''GET'' @ '' request to '' @ quoted ''http://x/''
            @ '' failed with status code '' @ quoted ''200''
            @ '' and error message '' @ quoted ''not found'')
         (Some system_error))"
  by (simp add: example_defs)

section \<open>Backoff delays\<close>

lemma custom_backoff_time_first_delay:
  "custom_backoff_time bs out n = first_delay (map (\<lambda>b. backoff_time b out n) bs)"
  by (induction bs) (auto simp: first_delay_def split: option.splits)

lemma custom_backoff_time_zero_as_none:
  "custom_backoff_time (map zero_as_none bs) out n = custom_backoff_time bs out n"
  by (induction bs) (auto simp: zero_as_none_def split: option.splits)

lemma strategies_max_retries_zero_as_none:
  "strategies_max_retries (map zero_as_none bs) d = strategies_max_retries bs d"
  by (induction bs) (auto simp: zero_as_none_def split: option.splits)

lemma strategies_max_time_zero_as_none:
  "strategies_max_time (map zero_as_none bs) d = strategies_max_time bs d"
  by (induction bs) (auto simp: zero_as_none_def split: option.splits)

lemma strategies_factor_zero_as_none:
  "strategies_factor (map zero_as_none bs) d = strategies_factor bs d"
  by (induction bs) (auto simp: zero_as_none_def split: option.splits)

lemma fail_error_message_strategies:
  "fail_error_message (c\<lparr>backoff_strategies := bs\<rparr>) = fail_error_message c"
  by (intro ext) (simp add: fail_error_message_def cong: option.case_cong)

lemma send_zero_as_none:
  "send (c\<lparr>backoff_strategies := map zero_as_none (backoff_strategies c)\<rparr>) request s = send c request s"
  unfolding send_def Let_def
  by (simp add: custom_backoff_time_zero_as_none fail_error_message_strategies
      cong: if_cong prod.case_cong option.case_cong)

lemma user_handler_cong:
  assumes "\<And>s. send c' request s = send c request s"
  shows "user_defined_backoff_handler mt mx st c' request s
           = user_defined_backoff_handler mt mx st c request s"
  using assms
proof (induction mt mx st c request s rule: user_defined_backoff_handler.induct)
  case (1 mt mx st c request s)
  note eq = "1.prems"
  obtain r1 s1 where sent: "send c request s = (r1, s1)" by (cases "send c request s")
  have sent': "send c' request s = (r1, s1)" using sent eq by simp
  have A: "user_defined_backoff_handler mt mx st c' request s =
      (case r1 of Inr r \<Rightarrow> (Inr r, s1)
       | Inl e \<Rightarrow>
           if \<not> is_user_defined_backoff e then (Inl e, s1)
           else if mt \<le> attempt_count_of s1 (ident request)
                   \<or> of_int mx < (clock s1 - st) + backoff_of e
           then (Inl e, s1)
           else user_defined_backoff_handler mt mx st c' request (sleep (backoff_of e) s1))"
    by (subst user_defined_backoff_handler.simps) (simp add: sent')
  have B: "user_defined_backoff_handler mt mx st c request s =
      (case r1 of Inr r \<Rightarrow> (Inr r, s1)
       | Inl e \<Rightarrow>
           if \<not> is_user_defined_backoff e then (Inl e, s1)
           else if mt \<le> attempt_count_of s1 (ident request)
                   \<or> of_int mx < (clock s1 - st) + backoff_of e
           then (Inl e, s1)
           else user_defined_backoff_handler mt mx st c request (sleep (backoff_of e) s1))"
    by (subst user_defined_backoff_handler.simps) (simp add: sent)
  show ?case
  proof (cases r1)
    case (Inr x)
    then show ?thesis by (simp add: A B)
  next
    case (Inl e)
    show ?thesis
    proof (cases "\<not> is_user_defined_backoff e \<or> mt \<le> attempt_count_of s1 (ident request)
                   \<or> of_int mx < (clock s1 - st) + backoff_of e")
      case True
      with Inl show ?thesis by (auto simp: A B)
    next
      case False
      then have c1: "\<not> \<not> is_user_defined_backoff e"
        and c2: "\<not> (mt \<le> attempt_count_of s1 (ident request)
                   \<or> of_int mx < (clock s1 - st) + backoff_of e)" by auto
      have "user_defined_backoff_handler mt mx st c' request (sleep (backoff_of e) s1)
          = user_defined_backoff_handler mt mx st c request (sleep (backoff_of e) s1)"
        using "1.IH" [OF sent [symmetric] Inl c1 c2 eq] .
      with Inl False show ?thesis by (simp add: A B)
    qed
  qed
qed

lemma default_handler_cong:
  assumes "\<And>s. send c' request s = send c request s"
  shows "http_client_default_backoff_handler mt mx fac st c' request s
           = http_client_default_backoff_handler mt mx fac st c request s"
  using assms
proof (induction mt mx fac st c request s rule: http_client_default_backoff_handler.induct)
  case (1 mt mx fac st c request s)
  note eq = "1.prems"
  obtain r1 s1 where inner: "user_defined_backoff_handler mt mx st c request s = (r1, s1)"
    by (cases "user_defined_backoff_handler mt mx st c request s")
  have inner': "user_defined_backoff_handler mt mx st c' request s = (r1, s1)"
    using inner user_handler_cong [of c' request c, OF eq] by simp
  define d where "d = fac * 2 ^ nat (attempt_count_of s1 (ident request) - 1)"
  have A: "http_client_default_backoff_handler mt mx fac st c' request s =
      (case r1 of Inr r \<Rightarrow> (Inr r, s1)
       | Inl e \<Rightarrow>
           if \<not> is_default_backoff e then (Inl e, s1)
           else if mt \<le> attempt_count_of s1 (ident request)
                   \<or> of_int mx < (clock s1 - st) + d
           then (Inl e, s1)
           else http_client_default_backoff_handler mt mx fac st c' request (sleep d s1))"
    unfolding d_def by (subst http_client_default_backoff_handler.simps) (simp add: inner')
  have B: "http_client_default_backoff_handler mt mx fac st c request s =
      (case r1 of Inr r \<Rightarrow> (Inr r, s1)
       | Inl e \<Rightarrow>
           if \<not> is_default_backoff e then (Inl e, s1)
           else if mt \<le> attempt_count_of s1 (ident request)
                   \<or> of_int mx < (clock s1 - st) + d
           then (Inl e, s1)
           else http_client_default_backoff_handler mt mx fac st c request (sleep d s1))"
    unfolding d_def by (subst http_client_default_backoff_handler.simps) (simp add: inner)
  show ?case
  proof (cases r1)
    case (Inr x)
    then show ?thesis by (simp add: A B)
  next
    case (Inl e)
    show ?thesis
    proof (cases "\<not> is_default_backoff e \<or> mt \<le> attempt_count_of s1 (ident request)
                   \<or> of_int mx < (clock s1 - st) + d")
      case True
      with Inl show ?thesis by (auto simp: A B)
    next
      case False
      then have c1: "\<not> \<not> is_default_backoff e"
        and c2: "\<not> (mt \<le> attempt_count_of s1 (ident request)
                   \<or> of_int mx < (clock s1 - st)
                        + fac * 2 ^ nat (attempt_count_of s1 (ident request) - 1))"
        by (auto simp: d_def)
      have "http_client_default_backoff_handler mt mx fac st c' request (sleep d s1)
          = http_client_default_backoff_handler mt mx fac st c request (sleep d s1)"
        using "1.IH" [OF inner [symmetric] Inl c1 c2 eq] by (simp add: d_def)
      with Inl False show ?thesis by (simp add: A B)
    qed
  qed
qed

lemma send_with_retry_zero_as_none:
  "send_with_retry (c\<lparr>backoff_strategies := map zero_as_none (backoff_strategies c)\<rparr>) request s
     = send_with_retry c request s"
  by (simp add: send_with_retry_def resolve_max_tries_def resolve_max_retries_def
      resolve_max_time_def resolve_factor_def strategies_max_retries_zero_as_none
      strategies_max_time_zero_as_none strategies_factor_zero_as_none
      default_handler_cong [OF send_zero_as_none] cong: option.case_cong)

lemma send_request_zero_as_none:
  "send_request (c\<lparr>backoff_strategies := map zero_as_none (backoff_strategies c)\<rparr>) meth u hdrs ps json data dedupe s
     = send_request c meth u hdrs ps json data dedupe s"
  by (simp add: send_request_def send_with_retry_zero_as_none cong: sum.case_cong)

lemma custom_backoff_time_all_empty:
  "(\<forall>b \<in> set bs. backoff_time b out n = None \<or> backoff_time b out n = Some 0) \<Longrightarrow>
     custom_backoff_time bs out n = None"
  by (induction bs) (auto split: option.splits)

lemma slept_extends_trans: "slept_extends a b \<Longrightarrow> slept_extends b c \<Longrightarrow> slept_extends a c"
  by (auto simp: slept_extends_def)

lemma slept_extends_sleep: "slept_extends a b \<Longrightarrow> slept_extends a (sleep d b)"
  by (auto simp: slept_extends_def sleep_def)

lemma send_slept_extends: "send c request s = (r, s') \<Longrightarrow> slept_extends s s'"
  by (simp add: slept_extends_def send_state(3))

lemma default_handler_slept_extends:
  "http_client_default_backoff_handler mt mx fac st c request s = (r, s') \<Longrightarrow> slept_extends s s'"
  by (erule default_handler_rel)
    (auto intro: send_slept_extends slept_extends_trans slept_extends_sleep)

lemma slept_extends_take:
  "slept_extends a b \<Longrightarrow> slept a = xs @ [d] \<Longrightarrow> take (Suc (length xs)) (slept b) = xs @ [d]"
  by (auto simp: slept_extends_def)

lemma send_with_retry_default_first_sleep:
  assumes sent: "send c request s = (Inl (DefaultBackoffException i out m), s1)"
    and tries: "attempt_count_of s1 (ident request)
                  < resolve_max_tries (error_handler c) (backoff_strategies c)"
    and budget: "(clock s1 - clock s)
                   + resolve_factor (backoff_strategies c)
                       * 2 ^ nat (attempt_count_of s1 (ident request) - 1)
                   \<le> of_int (resolve_max_time (error_handler c) (backoff_strategies c))"
  shows "take (Suc (length (slept s))) (slept (snd (send_with_retry c request s)))
           = slept s @ [resolve_factor (backoff_strategies c)
                          * 2 ^ nat (attempt_count_of s1 (ident request) - 1)]"
proof -
  define mt where "mt = resolve_max_tries (error_handler c) (backoff_strategies c)"
  define mx where "mx = resolve_max_time (error_handler c) (backoff_strategies c)"
  define fac where "fac = resolve_factor (backoff_strategies c)"
  define d where "d = fac * 2 ^ nat (attempt_count_of s1 (ident request) - 1)"
  define s2 where "s2 = sleep d s1"
  have inner: "user_defined_backoff_handler mt mx (clock s) c request s
                 = (Inl (DefaultBackoffException i out m), s1)"
    using sent by (simp add: user_handler_unhandled)
  obtain r s' where rest:
    "http_client_default_backoff_handler mt mx fac (clock s) c request s2 = (r, s')"
    by (cases "http_client_default_backoff_handler mt mx fac (clock s) c request s2")
  have "http_client_default_backoff_handler mt mx fac (clock s) c request s = (r, s')"
    using inner tries budget rest
    by (subst http_client_default_backoff_handler.simps)
      (simp add: mt_def mx_def fac_def s2_def d_def)
  then have whole: "send_with_retry c request s = (r, s')"
    by (simp add: send_with_retry_def Let_def mt_def mx_def fac_def)
  have "slept_extends s2 s'"
    using rest by (rule default_handler_slept_extends)
  moreover have "slept s2 = slept s @ [d]"
    using send_state(3) [OF sent] by (simp add: s2_def sleep_def)
  ultimately have "take (Suc (length (slept s))) (slept s') = slept s @ [d]"
    by (rule slept_extends_take)
  with whole show ?thesis by (simp add: d_def fac_def)
qed

text \<open>
  C9. A strategy that returns 0 is treated exactly as one that returns no delay: with
  every strategy changed to return \<^verbatim>\<open>None\<close> where it returns 0, \<^verbatim>\<open>send_request\<close> does
  the same; the selection passes over a strategy that returns 0 to the later ones; and
  when every strategy returns 0 or \<^verbatim>\<open>None\<close> for a \<open>RETRY\<close> outcome at attempt \<open>n\<close>, the
  attempt raises the signal of the default backoff, and the executor, when the limits
  allow a next attempt, sleeps for \<open>factor \<times> 2^(n - 1)\<close>, not for 0 seconds.
\<close>

theorem zero_delay_is_no_delay:
  "send_request (c\<lparr>backoff_strategies := map zero_as_none (backoff_strategies c)\<rparr>)
       meth u hdrs ps json data dedupe s
     = send_request c meth u hdrs ps json data dedupe s
   \<and> (backoff_time b out n = Some 0 \<longrightarrow>
        custom_backoff_time (b # bs) out n = custom_backoff_time bs out n)
   \<and> ((\<forall>b \<in> set (backoff_strategies c). backoff_time b out n = None \<or> backoff_time b out n = Some 0)
        \<and> session_send c (calls s) request = (t, out)
        \<and> response_action (interpret_response (error_handler c) out) = RETRY
        \<and> n = (case request_attempt_count s (ident request) of None \<Rightarrow> 1 | Some k \<Rightarrow> k + 1)
        \<and> n < resolve_max_tries (error_handler c) (backoff_strategies c)
        \<and> t + resolve_factor (backoff_strategies c) * 2 ^ nat (n - 1)
             \<le> of_int (resolve_max_time (error_handler c) (backoff_strategies c))
      \<longrightarrow>
        fst (send c request s) =
          Inl (DefaultBackoffException (ident request) out
                 (retry_error_message request (interpret_response (error_handler c) out)))
        \<and> take (Suc (length (slept s))) (slept (snd (send_with_retry c request s)))
             = slept s @ [resolve_factor (backoff_strategies c) * 2 ^ nat (n - 1)])"
proof (intro conjI impI)
  show "send_request (c\<lparr>backoff_strategies := map zero_as_none (backoff_strategies c)\<rparr>)
       meth u hdrs ps json data dedupe s
     = send_request c meth u hdrs ps json data dedupe s"
    by (rule send_request_zero_as_none)
next
  assume "backoff_time b out n = Some 0"
  then show "custom_backoff_time (b # bs) out n = custom_backoff_time bs out n"
    by simp
next
  assume a: "(\<forall>b \<in> set (backoff_strategies c). backoff_time b out n = None \<or> backoff_time b out n = Some 0)
        \<and> session_send c (calls s) request = (t, out)
        \<and> response_action (interpret_response (error_handler c) out) = RETRY
        \<and> n = (case request_attempt_count s (ident request) of None \<Rightarrow> 1 | Some k \<Rightarrow> k + 1)
        \<and> n < resolve_max_tries (error_handler c) (backoff_strategies c)
        \<and> t + resolve_factor (backoff_strategies c) * 2 ^ nat (n - 1)
             \<le> of_int (resolve_max_time (error_handler c) (backoff_strategies c))"
  then have "\<forall>b \<in> set (backoff_strategies c). backoff_time b out n = None \<or> backoff_time b out n = Some 0"
    by (rule conjunct1)
  then have none: "custom_backoff_time (backoff_strategies c) out n = None"
    by (rule custom_backoff_time_all_empty)
  with a show sent: "fst (send c request s) =
          Inl (DefaultBackoffException (ident request) out
                 (retry_error_message request (interpret_response (error_handler c) out)))"
    using send_retry [of c s request t out] by simp
  obtain r1 s1 where s1: "send c request s = (r1, s1)" by (cases "send c request s")
  with sent have r1: "send c request s =
      (Inl (DefaultBackoffException (ident request) out
                 (retry_error_message request (interpret_response (error_handler c) out))), s1)"
    by simp
  have t: "clock s1 - clock s = t"
    using send_state(5) [OF s1] a by simp
  have n: "attempt_count_of s1 (ident request) = n"
    using send_attempt_count [OF s1] a by (simp add: attempt_count_of_def split: option.splits)
  from a have lim: "n < resolve_max_tries (error_handler c) (backoff_strategies c)"
    by blast
  from a have bud: "t + resolve_factor (backoff_strategies c) * 2 ^ nat (n - 1)
             \<le> of_int (resolve_max_time (error_handler c) (backoff_strategies c))"
    by blast
  show "take (Suc (length (slept s))) (slept (snd (send_with_retry c request s)))
             = slept s @ [resolve_factor (backoff_strategies c) * 2 ^ nat (n - 1)]"
    using send_with_retry_default_first_sleep [OF r1, unfolded t n, OF lim bud] .
qed

theorem zero_delay_is_no_delay_witness:
  "custom_backoff_time [constant_strategy 0 (Some 2), constant_strategy 7 None]
       (Response \<lparr>status_code = 503, body_text = ''busy''\<rparr>) 1 = Some 7
   \<and> take 1 (slept (snd (send_with_retry
       (client_of (constant_handler RETRY None)
          [constant_strategy 0 (Some 2), silent_strategy None]
          (constant_transport 503 ''busy''))
       \<lparr>ident = 0, http_method = ''GET'', url = ''http://x/'', headers = None, params = [],
         json_body = None, data_body = None\<rparr> initial_state))) = [5]"
proof -
  let ?rq = "\<lparr>ident = 0, http_method = ''GET'', url = ''http://x/'', headers = None, params = [],
         json_body = None, data_body = None\<rparr>"
  let ?c = "client_of (constant_handler RETRY None)
          [constant_strategy 0 (Some 2), silent_strategy None] (constant_transport 503 ''busy'')"
  let ?out = "Response \<lparr>status_code = 503, body_text = ''busy''\<rparr>"
  show ?thesis
    using zero_delay_is_no_delay [of ?c _ _ _ _ _ _ _ initial_state "constant_strategy 0 (Some 2)"
        ?out 1 "[constant_strategy 7 None]" ?rq 0]
    by (simp add: client_of_def constant_handler_def constant_transport_def initial_state_def
        silent_strategy_def constant_strategy_def resolve_max_tries_def
        resolve_max_retries_def resolve_max_time_def DEFAULT_MAX_TIME_def resolve_factor_def
        DEFAULT_RETRY_FACTOR_def)
qed

section \<open>The sleeps of a run\<close>

lemma retry_delay_custom:
  "retry_delay c out n =
     (case custom_backoff_time (backoff_strategies c) out n of
        Some d \<Rightarrow> d
      | None \<Rightarrow> resolve_factor (backoff_strategies c) * 2 ^ nat (n - 1))"
  by (simp add: retry_delay_def custom_backoff_time_first_delay)

lemma send_signal:
  assumes "send c request s = (Inl e, s')"
    and "is_user_defined_backoff e \<or> is_default_backoff e"
  shows "response_action (interpret_response (error_handler c)
           (snd (session_send c (calls s) request))) = RETRY"
    and "custom_backoff_time (backoff_strategies c) (snd (session_send c (calls s) request))
           (attempt_count_of s (ident request) + 1)
         = (if is_user_defined_backoff e then Some (backoff_of e) else None)"
  using assms
  by (auto simp: send_def Let_def log_record_def attempt_count_of_def
      split: prod.splits if_splits option.splits)

lemma send_signal_delay:
  assumes "send c request s = (Inl e, s')"
  shows "is_user_defined_backoff e \<Longrightarrow>
           backoff_of e = retry_delay c (snd (session_send c (calls s) request))
                            (attempt_count_of s (ident request) + 1)"
    and "is_default_backoff e \<Longrightarrow>
           resolve_factor (backoff_strategies c) * 2 ^ nat (attempt_count_of s (ident request))
             = retry_delay c (snd (session_send c (calls s) request))
                 (attempt_count_of s (ident request) + 1)"
proof -
  show "backoff_of e = retry_delay c (snd (session_send c (calls s) request))
                            (attempt_count_of s (ident request) + 1)"
    if "is_user_defined_backoff e"
    using send_signal(2) [OF assms] that by (simp add: retry_delay_custom)
  show "resolve_factor (backoff_strategies c) * 2 ^ nat (attempt_count_of s (ident request))
             = retry_delay c (snd (session_send c (calls s) request))
                 (attempt_count_of s (ident request) + 1)"
    if "is_default_backoff e"
  proof -
    have "\<not> is_user_defined_backoff e" using that by (cases e) simp_all
    then show ?thesis
      using send_signal(2) [OF assms] that by (simp add: retry_delay_custom)
  qed
qed

lemma map_upt_add_shift:
  "map f [0..<a + b] = map f [0..<a] @ map (\<lambda>j. f (a + j)) [0..<b]"
  by (induction b) simp_all

lemma retried_run_send:
  "send c request s = (r, s') \<Longrightarrow> retried_run c request s s' 0"
  by (simp add: retried_run_def send_state(1,3) send_attempt_count)

lemma retried_run_step:
  assumes first: "retried_run c request s s1 m1"
    and retry: "response_action (interpret_response (error_handler c)
                  (snd (session_send c (calls s + m1) request))) = RETRY"
    and d: "d = retry_delay c (snd (session_send c (calls s + m1) request))
                  (attempt_count_of s (ident request) + int m1 + 1)"
    and rest: "retried_run c request (sleep d s1) s' m2"
  shows "retried_run c request s s' (m1 + 1 + m2)"
proof -
  have c1: "calls (sleep d s1) = calls s + Suc m1"
    and n1: "attempt_count_of (sleep d s1) (ident request)
               = attempt_count_of s (ident request) + 1 + int m1"
    using first by (simp_all add: retried_run_def sleep_def attempt_count_of_def)
  have sl1: "slept (sleep d s1) = slept s @
           map (\<lambda>j. retry_delay c (snd (session_send c (calls s + j) request))
                       (attempt_count_of s (ident request) + int j + 1)) [0..<m1] @ [d]"
    using first by (simp add: retried_run_def sleep_def)
  have shift1: "(\<lambda>j. retry_delay c (snd (session_send c (calls (sleep d s1) + j) request))
                       (attempt_count_of (sleep d s1) (ident request) + int j + 1))
      = (\<lambda>j. retry_delay c (snd (session_send c (calls s + (m1 + 1 + j)) request))
                       (attempt_count_of s (ident request) + int (m1 + 1 + j) + 1))"
    by (rule ext) (simp add: c1 n1 add.assoc add.left_commute)
  have shift2: "(\<lambda>j. response_action (interpret_response (error_handler c)
                          (snd (session_send c (calls (sleep d s1) + j) request))) = RETRY)
      = (\<lambda>j. response_action (interpret_response (error_handler c)
                          (snd (session_send c (calls s + (m1 + 1 + j)) request))) = RETRY)"
    by (rule ext) (simp add: c1 add.assoc add.left_commute)
  have "calls s' = calls s + Suc (m1 + 1 + m2)"
    using rest c1 by (simp add: retried_run_def)
  moreover have "attempt_count_of s' (ident request)
      = attempt_count_of s (ident request) + 1 + int (m1 + 1 + m2)"
    using rest n1 by (simp add: retried_run_def)
  moreover have "slept s' = slept s @
           map (\<lambda>j. retry_delay c (snd (session_send c (calls s + j) request))
                       (attempt_count_of s (ident request) + int j + 1)) [0..<m1 + 1 + m2]"
  proof -
    have "slept s' = slept (sleep d s1) @
           map (\<lambda>j. retry_delay c (snd (session_send c (calls s + (m1 + 1 + j)) request))
                       (attempt_count_of s (ident request) + int (m1 + 1 + j) + 1)) [0..<m2]"
      using rest unfolding retried_run_def shift1 by simp
    then show ?thesis
      unfolding sl1 map_upt_add_shift [of _ "m1 + 1" m2] by (simp add: d)
  qed
  moreover have "list_all (\<lambda>j. response_action (interpret_response (error_handler c)
                          (snd (session_send c (calls s + j) request))) = RETRY) [0..<m1 + 1 + m2]"
  proof -
    have a: "list_all (\<lambda>j. response_action (interpret_response (error_handler c)
                          (snd (session_send c (calls s + j) request))) = RETRY) [0..<m1]"
      using first by (simp add: retried_run_def)
    have b: "list_all (\<lambda>j. response_action (interpret_response (error_handler c)
                          (snd (session_send c (calls s + (m1 + 1 + j)) request))) = RETRY) [0..<m2]"
      using rest unfolding retried_run_def shift2 by simp
    show ?thesis
      unfolding list_all_iff
    proof
      fix j assume "j \<in> set [0..<m1 + 1 + m2]"
      then have "j < m1 + 1 + m2" by auto
      then have "j < m1 \<or> j = m1 \<or> (\<exists>k<m2. j = m1 + 1 + k)" by presburger
      then consider "j < m1" | "j = m1" | k where "j = m1 + 1 + k" "k < m2"
        by blast
      then show "response_action (interpret_response (error_handler c)
                          (snd (session_send c (calls s + j) request))) = RETRY"
      proof cases
        case 1 with a show ?thesis by (simp add: list_all_iff)
      next
        case 2 with retry show ?thesis by simp
      next
        case 3 with b show ?thesis by (simp add: list_all_iff)
      qed
    qed
  qed
  ultimately show ?thesis by (simp add: retried_run_def)
qed

text \<open>
  Induction over a run of a handler with a given result: the property holds at the state
  of the attempt that ends the run, and it goes from the state after a sleep to the state
  before the attempt retried.
\<close>

lemma user_handler_run_induct [consumes 1, case_names stop step]:
  assumes run: "user_defined_backoff_handler mt mx st c request s = (r, s')"
    and stop: "\<And>s. send c request s = (r, s') \<Longrightarrow> P s"
    and step: "\<And>s e s1. send c request s = (Inl e, s1) \<Longrightarrow> is_user_defined_backoff e \<Longrightarrow>
                 attempt_count_of s1 (ident request) < mt \<Longrightarrow>
                 P (sleep (backoff_of e) s1) \<Longrightarrow> P s"
  shows "P s"
  using assms
proof (induction mt mx st c request s rule: user_defined_backoff_handler.induct)
  case (1 mt mx st c request s)
  note run = "1.prems"(1) and stop = "1.prems"(2) and step = "1.prems"(3)
  obtain r1 s1 where sent: "send c request s = (r1, s1)" by (cases "send c request s")
  show ?case
  proof (cases "(r, s') = (r1, s1)")
    case True
    with sent show ?thesis by (simp add: stop)
  next
    case False
    with run sent obtain e where r1: "r1 = Inl e"
      and cond: "\<not> \<not> is_user_defined_backoff e"
        "\<not> (mt \<le> attempt_count_of s1 (ident request)
            \<or> of_int mx < (clock s1 - st) + backoff_of e)"
      and next_run: "user_defined_backoff_handler mt mx st c request (sleep (backoff_of e) s1)
            = (r, s')"
      by (subst (asm) user_defined_backoff_handler.simps) (auto split: sum.splits if_splits)
    have "P (sleep (backoff_of e) s1)"
      using "1.IH" [OF sent [symmetric] r1 cond next_run stop step] .
    with sent r1 cond show ?thesis by (auto intro: step)
  qed
qed

lemma default_handler_run_induct [consumes 1, case_names stop step]:
  assumes run: "http_client_default_backoff_handler mt mx fac st c request s = (r, s')"
    and stop: "\<And>s. user_defined_backoff_handler mt mx st c request s = (r, s') \<Longrightarrow> P s"
    and step: "\<And>s e s1. user_defined_backoff_handler mt mx st c request s = (Inl e, s1) \<Longrightarrow>
                 is_default_backoff e \<Longrightarrow> attempt_count_of s1 (ident request) < mt \<Longrightarrow>
                 P (sleep (fac * 2 ^ nat (attempt_count_of s1 (ident request) - 1)) s1) \<Longrightarrow> P s"
  shows "P s"
  using assms
proof (induction mt mx fac st c request s rule: http_client_default_backoff_handler.induct)
  case (1 mt mx fac st c request s)
  note run = "1.prems"(1) and stop = "1.prems"(2) and step = "1.prems"(3)
  obtain r1 s1 where inner: "user_defined_backoff_handler mt mx st c request s = (r1, s1)"
    by (cases "user_defined_backoff_handler mt mx st c request s")
  show ?case
  proof (cases "(r, s') = (r1, s1)")
    case True
    with inner show ?thesis by (simp add: stop)
  next
    case False
    with run inner obtain e where r1: "r1 = Inl e"
      and cond: "\<not> \<not> is_default_backoff e"
        "\<not> (mt \<le> attempt_count_of s1 (ident request)
            \<or> of_int mx < (clock s1 - st)
                  + fac * 2 ^ nat (attempt_count_of s1 (ident request) - 1))"
      and next_run: "http_client_default_backoff_handler mt mx fac st c request
            (sleep (fac * 2 ^ nat (attempt_count_of s1 (ident request) - 1)) s1) = (r, s')"
      by (subst (asm) http_client_default_backoff_handler.simps)
        (auto split: sum.splits if_splits)
    have "P (sleep (fac * 2 ^ nat (attempt_count_of s1 (ident request) - 1)) s1)"
      using "1.IH" [OF inner [symmetric] r1 cond next_run stop step] .
    with inner r1 cond show ?thesis by (auto intro: step)
  qed
qed

lemma user_handler_retried_run:
  assumes "user_defined_backoff_handler mt mx st c request s = (r, s')"
  shows "\<exists>m. retried_run c request s s' m"
  using assms
proof (induction s rule: user_handler_run_induct)
  case (stop s)
  then show ?case by (blast intro: retried_run_send)
next
  case (step s e s1)
  from step(4) obtain m2 where rest: "retried_run c request (sleep (backoff_of e) s1) s' m2" ..
  have first: "retried_run c request s s1 0"
    using step(1) by (rule retried_run_send)
  have "retried_run c request s s' (0 + 1 + m2)"
    using first _ _ rest
  proof (rule retried_run_step)
    show "response_action (interpret_response (error_handler c)
            (snd (session_send c (calls s + 0) request))) = RETRY"
      using send_signal(1) [OF step(1)] step(2) by simp
    show "backoff_of e = retry_delay c (snd (session_send c (calls s + 0) request))
            (attempt_count_of s (ident request) + int 0 + 1)"
      using send_signal_delay(1) [OF step(1) step(2)] by simp
  qed
  then show ?case ..
qed

text \<open>
  When a handler's run ends with the signal of the default backoff, the last outcome is
  classified \<open>RETRY\<close> and the delay selected for it is the exponential backoff on the
  attempt count.
\<close>

lemma user_handler_default_signal:
  assumes "user_defined_backoff_handler mt mx st c request s = (Inl e, s')"
    and "is_default_backoff e"
  shows "response_action (interpret_response (error_handler c)
           (snd (session_send c (calls s' - 1) request))) = RETRY
       \<and> resolve_factor (backoff_strategies c) * 2 ^ nat (attempt_count_of s' (ident request) - 1)
           = retry_delay c (snd (session_send c (calls s' - 1) request))
               (attempt_count_of s' (ident request))"
  using assms(1)
proof (induction s rule: user_handler_run_induct)
  case (stop s)
  have "calls s' - 1 = calls s" using send_state(1) [OF stop] by simp
  moreover have "attempt_count_of s' (ident request) = attempt_count_of s (ident request) + 1"
    using stop by (rule send_attempt_count)
  ultimately show ?case
    using send_signal(1) [OF stop] send_signal_delay(2) [OF stop] assms(2) by simp
next
  case (step s e s1)
  then show ?case by simp
qed

lemma default_handler_retried_run:
  assumes "http_client_default_backoff_handler mt mx (resolve_factor (backoff_strategies c)) st
             c request s = (r, s')"
  shows "\<exists>m. retried_run c request s s' m"
  using assms
proof (induction s rule: default_handler_run_induct)
  case (stop s)
  then show ?case by (rule user_handler_retried_run)
next
  case (step s e s1)
  define d where "d = resolve_factor (backoff_strategies c)
                        * 2 ^ nat (attempt_count_of s1 (ident request) - 1)"
  from step(4) obtain m2 where rest: "retried_run c request (sleep d s1) s' m2"
    unfolding d_def ..
  from user_handler_retried_run [OF step(1)]
  obtain m1 where first: "retried_run c request s s1 m1" ..
  then have c1: "calls s1 - 1 = calls s + m1"
    and n1: "attempt_count_of s1 (ident request) = attempt_count_of s (ident request) + int m1 + 1"
    by (simp_all add: retried_run_def)
  note last = user_handler_default_signal [OF step(1) step(2), unfolded c1 n1]
  have "retried_run c request s s' (m1 + 1 + m2)"
    using first _ _ rest
  proof (rule retried_run_step)
    show "response_action (interpret_response (error_handler c)
            (snd (session_send c (calls s + m1) request))) = RETRY"
      using last by simp
    show "d = retry_delay c (snd (session_send c (calls s + m1) request))
            (attempt_count_of s (ident request) + int m1 + 1)"
      using last by (simp add: d_def n1)
  qed
  then show ?case ..
qed

lemma send_with_retry_retried_run:
  "retried_run c request s (snd (send_with_retry c request s))
     (calls (snd (send_with_retry c request s)) - calls s - 1)"
proof -
  obtain r s' where run: "send_with_retry c request s = (r, s')"
    by (cases "send_with_retry c request s")
  then obtain m where m: "retried_run c request s s' m"
    unfolding send_with_retry_def Let_def by (blast dest: default_handler_retried_run)
  then have "calls s' - calls s - 1 = m" by (simp add: retried_run_def)
  with m run show ?thesis by simp
qed



section \<open>The number of attempts\<close>

lemma user_handler_count_bound:
  assumes "user_defined_backoff_handler mt mx st c request s = (r, s')"
  shows "attempt_count_of s' (ident request) \<le> max (attempt_count_of s (ident request) + 1) mt"
  using assms
proof (induction s rule: user_handler_run_induct)
  case (stop s)
  then show ?case by (simp add: send_attempt_count)
next
  case (step s e s1)
  have "attempt_count_of (sleep (backoff_of e) s1) (ident request)
          = attempt_count_of s (ident request) + 1"
    using send_attempt_count [OF step(1)] by (simp add: attempt_count_of_def sleep_def)
  with step show ?case by (simp add: send_attempt_count)
qed

lemma default_handler_count_bound:
  assumes "http_client_default_backoff_handler mt mx fac st c request s = (r, s')"
  shows "attempt_count_of s' (ident request) \<le> max (attempt_count_of s (ident request) + 1) mt"
  using assms
proof (induction s rule: default_handler_run_induct)
  case (stop s)
  then show ?case by (rule user_handler_count_bound)
next
  case (step s e s1)
  have "attempt_count_of (sleep (fac * 2 ^ nat (attempt_count_of s1 (ident request) - 1)) s1)
          (ident request) = attempt_count_of s1 (ident request)"
    by (simp add: attempt_count_of_def sleep_def)
  with step show ?case by simp
qed

text \<open>
  C1, as stated, fails. With \<open>max_retries = -1\<close> the executor computes
  \<open>max_tries = max(0, -1) + 1 = 1\<close> and makes one attempt, which is more than
  \<open>max_retries + 1 = 0\<close>.
\<close>

theorem negative_max_retries_one_attempt:
  "resolve_max_retries
       (error_handler (client_of (constant_handler RETRY None) [silent_strategy (Some (- 1))]
          (constant_transport 503 ''busy'')))
       (backoff_strategies (client_of (constant_handler RETRY None) [silent_strategy (Some (- 1))]
          (constant_transport 503 ''busy''))) = - 1
   \<and> calls (snd (send_request
        (client_of (constant_handler RETRY None) [silent_strategy (Some (- 1))]
           (constant_transport 503 ''busy''))
        ''GET'' ''http://x/'' None None None None False initial_state)) = 1"
  by (simp add: example_defs)

text \<open>
  C1, amended. For every configuration of error handler and backoff strategies, one call
  of \<^verbatim>\<open>send_request\<close> makes at most \<open>max(0, max_retries) + 1\<close> transport calls, the
  \<open>max_tries\<close> that the executor computes and passes to both retry handlers. The
  request object of the call is new: no identity from the next unused one on is a key of
  \<^verbatim>\<open>_request_attempt_count\<close>.
\<close>

theorem attempts_bounded_by_max_tries:
  assumes "idents_allocated s"
  shows "calls (snd (send_request c meth u hdrs ps json data dedupe s))
           \<le> calls s + nat (max 0 (resolve_max_retries (error_handler c) (backoff_strategies c)) + 1)"
proof (cases "create_prepared_request (query_items c) (next_ident s) meth u dedupe hdrs ps json data")
  case (Inl e)
  then show ?thesis by (simp add: send_request_def)
next
  case (Inr request)
  define s1 where "s1 = s\<lparr>next_ident := next_ident s + 1\<rparr>"
  define mt where "mt = resolve_max_tries (error_handler c) (backoff_strategies c)"
  obtain r s' where run: "send_with_retry c request s1 = (r, s')"
    by (cases "send_with_retry c request s1")
  have whole: "snd (send_request c meth u hdrs ps json data dedupe s) = s'"
    using Inr run by (simp add: send_request_def s1_def split: sum.splits)
  have "ident request = next_ident s"
    using Inr by (auto simp: create_prepared_request_def Let_def split: if_splits)
  with assms have fresh: "attempt_count_of s1 (ident request) = 0"
    by (simp add: idents_allocated_def attempt_count_of_def s1_def)
  have "attempt_count_of s' (ident request) \<le> max (attempt_count_of s1 (ident request) + 1) mt"
    using run unfolding send_with_retry_def Let_def mt_def
    by (rule default_handler_count_bound)
  then have bound: "attempt_count_of s' (ident request) \<le> mt"
    by (simp add: fresh mt_def resolve_max_tries_def)
  have "retried_run c request s1 s' (calls s' - calls s1 - 1)"
    using send_with_retry_retried_run [of c request s1] run by simp
  then have "int (calls s' - calls s1) = attempt_count_of s' (ident request)"
    by (simp add: retried_run_def fresh)
  with bound have "calls s' - calls s1 \<le> nat mt" by linarith
  then show ?thesis
    unfolding whole by (simp add: s1_def mt_def resolve_max_tries_def)
qed

theorem attempts_bounded_by_max_tries_witness:
  "idents_allocated initial_state
   \<and> calls (snd (send_request
        (client_of (constant_handler RETRY None) [silent_strategy (Some 2)]
           (constant_transport 503 ''busy''))
        ''GET'' ''http://x/'' None None None None False initial_state)) \<le> 3"
proof -
  have a: "idents_allocated initial_state"
    by (simp add: idents_allocated_def initial_state_def)
  show ?thesis
    using attempts_bounded_by_max_tries [OF a,
        of "client_of (constant_handler RETRY None) [silent_strategy (Some 2)]
              (constant_transport 503 ''busy'')"
           "''GET''" "''http://x/''" None None None None False] a
    by (simp add: client_of_def constant_handler_def silent_strategy_def initial_state_def
        resolve_max_retries_def)
qed

section \<open>The attempt count\<close>

lemma attempts_tracked_sleep: "attempts_tracked i a b \<Longrightarrow> attempts_tracked i a (sleep d b)"
  by (simp add: attempts_tracked_def sleep_def)

lemma attempts_tracked_trans:
  assumes "attempts_tracked i a b" and "attempts_tracked i b c"
  shows "attempts_tracked i a c"
proof (cases "calls b = calls a")
  case True
  with assms show ?thesis by (simp add: attempts_tracked_def)
next
  case ab: False
  show ?thesis
  proof (cases "calls c = calls b")
    case True
    with assms show ?thesis by (simp add: attempts_tracked_def)
  next
    case False
    with ab assms show ?thesis
      by (auto simp: attempts_tracked_def fun_eq_iff)
  qed
qed

lemma send_attempts_tracked:
  "send c request s = (r, s') \<Longrightarrow> attempts_tracked (ident request) s s'"
  using send_state(1,2,4) [of c request s r s']
  by (auto simp: attempts_tracked_def split: option.splits)

lemma send_with_retry_attempts_tracked:
  assumes "send_with_retry c request s = (r, s')"
  shows "attempts_tracked (ident request) s s'"
  using assms
  by (rule send_with_retry_rel)
    (auto intro: send_attempts_tracked attempts_tracked_trans attempts_tracked_sleep)

lemma send_with_retry_attempts:
  assumes "send_with_retry c request s = (r, s')"
  shows "calls s < calls s'"
  using send_with_retry_retried_run [of c request s] assms by (simp add: retried_run_def)

lemma create_prepared_request_ident:
  "create_prepared_request qi rid meth u dedupe hdrs ps json data = Inr request \<Longrightarrow>
     ident request = rid"
  by (auto simp: create_prepared_request_def Let_def split: if_splits)

text \<open>
  C3, as stated, fails. After a call of \<^verbatim>\<open>send_request\<close> that succeeded at its first
  attempt, the dictionary \<^verbatim>\<open>_request_attempt_count\<close> of the client holds the attempt
  count of the request under the request object: the retry state is stored in an
  instance-level keyed map and is not discarded when the logical request completes.
\<close>

theorem attempt_count_kept_after_completion:
  "fst (send_request (client_of (constant_handler SUCCESS None) [] (constant_transport 200 ''ok''))
          ''GET'' ''http://x/'' None None None None False initial_state)
     = Inr (\<lparr>ident = 0, http_method = ''GET'', url = ''http://x/'', headers = None,
             params = [], json_body = None, data_body = None\<rparr>,
            Some \<lparr>status_code = 200, body_text = ''ok''\<rparr>)
   \<and> request_attempt_count (snd (send_request
          (client_of (constant_handler SUCCESS None) [] (constant_transport 200 ''ok''))
          ''GET'' ''http://x/'' None None None None False initial_state)) 0 = Some 1"
  by (simp add: example_defs)

text \<open>
  C3, amended. The attempt count of a logical request is kept in the instance-level
  dictionary \<^verbatim>\<open>_request_attempt_count\<close> under the prepared request. Every call of
  \<^verbatim>\<open>send_request\<close> prepares a new request object, which is not yet a key; the call
  makes at least one attempt, and when it completes the dictionary is the one before the
  call with one more entry, the number of attempts of this request: the count starts at
  1, no entry of another request is changed, and no entry is removed.
\<close>

theorem attempt_count_in_instance_map:
  assumes allocated: "idents_allocated s"
    and prepared: "create_prepared_request (query_items c) (next_ident s) meth u dedupe hdrs ps
                     json data = Inr request"
  shows "calls s < calls (snd (send_request c meth u hdrs ps json data dedupe s))
    \<and> request_attempt_count (snd (send_request c meth u hdrs ps json data dedupe s))
        = (request_attempt_count s)
            (ident request \<mapsto>
               int (calls (snd (send_request c meth u hdrs ps json data dedupe s)) - calls s))
    \<and> request_attempt_count s (ident request) = None
    \<and> idents_allocated (snd (send_request c meth u hdrs ps json data dedupe s))"
proof -
  define s1 where "s1 = s\<lparr>next_ident := next_ident s + 1\<rparr>"
  obtain r s' where run: "send_with_retry c request s1 = (r, s')"
    by (cases "send_with_retry c request s1")
  have whole: "snd (send_request c meth u hdrs ps json data dedupe s) = s'"
    using prepared run by (simp add: send_request_def s1_def split: sum.splits)
  have i: "ident request = next_ident s"
    using prepared by (rule create_prepared_request_ident)
  have fresh: "request_attempt_count s (ident request) = None"
    using allocated i by (simp add: idents_allocated_def)
  have more: "calls s < calls s'"
    using send_with_retry_attempts [OF run] by (simp add: s1_def)
  have tracked: "attempts_tracked (ident request) s1 s'"
    using run by (rule send_with_retry_attempts_tracked)
  with more fresh have count:
    "request_attempt_count s' = (request_attempt_count s)(ident request \<mapsto> int (calls s' - calls s))"
    by (simp add: attempts_tracked_def s1_def)
  have "next_ident s' = next_ident s + 1"
    using tracked by (simp add: attempts_tracked_def s1_def)
  with count allocated i have "idents_allocated s'"
    by (simp add: idents_allocated_def)
  with whole more count fresh show ?thesis by simp
qed

theorem attempt_count_in_instance_map_witness:
  "request_attempt_count (snd (send_request
        (client_of (constant_handler RETRY None) [silent_strategy (Some 2)]
           (constant_transport 503 ''busy''))
        ''GET'' ''http://x/'' None None None None False initial_state))
     = [0 \<mapsto> 3]"
proof -
  let ?c = "client_of (constant_handler RETRY None) [silent_strategy (Some 2)]
           (constant_transport 503 ''busy'')"
  let ?rq = "\<lparr>ident = 0, http_method = ''GET'', url = ''http://x/'', headers = None,
             params = [], json_body = None, data_body = None\<rparr>"
  have a: "idents_allocated initial_state"
    by (simp add: idents_allocated_def initial_state_def)
  have p: "create_prepared_request (query_items ?c) (next_ident initial_state) ''GET'' ''http://x/''
             False None None None None = Inr ?rq"
    by (simp add: create_prepared_request_def upper_def upper_char_def BODY_REQUEST_METHODS_def
        json_truthy_def data_truthy_def initial_state_def)
  have n: "calls (snd (send_request ?c ''GET'' ''http://x/'' None None None None False initial_state)) = 3"
    by (simp add: example_defs)
  show ?thesis
    using attempt_count_in_instance_map [OF a p] n
    by (simp add: initial_state_def)
qed

end
